theory Spec2Isabelle
  imports Main "HOL-Library.Word"
begin

section \<open>DirMon: the debounce engine of \<open>monitor\<close> (DirMon.cpp, lines 110-191)\<close>

text \<open>
  \<open>monitor\<close> shares three variables between its two threads: the flag \<open>done\<close> and the
  timestamps \<open>timeSig\<close> (start of the pending burst) and \<open>timeSigLast\<close> (latest
  notification). Both timestamps are \<open>time_t\<close>, which is the signed 64-bit
  \<open>__time64_t\<close> of the Microsoft runtime (the code hands \<open>&timeSig\<close> to
  \<open>_wctime64_s\<close>): a \<open>64 word\<close>, subtracted with wrap-around and compared as a signed
  value. The value 0 means that no burst is pending (\<open>if (!timeSig)\<close>).

  What the threads write to \<open>wclog\<close> and \<open>wcerr\<close> and the call of \<open>_wsystem\<close> are kept as
  a trace in the field \<open>out\<close>. The text of \<open>dateBuf\<close> is a function of the timestamp
  passed to \<open>_wctime64_s\<close>; the trace keeps that timestamp.
\<close>

type_synonym time_t = "64 word"

datatype effect =
    Wclog_raw time_t      \<comment> \<open>line 182: "[date of now] Detected a modification. (raw)"\<close>
  | Wclog_detected time_t \<comment> \<open>line 154: "[date of timeSig] Detected a modification."\<close>
  | Wsystem               \<comment> \<open>line 156: \<open>_wsystem(batPath.c_str())\<close>\<close>
  | Wcerr_nonzero time_t  \<comment> \<open>line 157: "[date] Non-zero error code was returned by ..."\<close>

record monitor_state =
  done_flag :: bool   \<comment> \<open>the variable \<open>done\<close> of line 112 (\<open>done\<close> is a reserved word here)\<close>
  timeSig :: time_t
  timeSigLast :: time_t
  out :: "effect list"

text \<open>Lines 112-115: the state in which \<open>monitor\<close> starts its two loops.\<close>

definition monitor_init :: monitor_state where
  "monitor_init = \<lparr>done_flag = False, timeSig = 0, timeSigLast = 0, out = []\<rparr>"

text \<open>
  The body of the recorder loop once \<open>WaitForSingleObject\<close> has returned and the lock is
  held (lines 168-185); \<open>now\<close> is the value of \<open>time(nullptr)\<close> at line 168. The
  operations are typed over every extension of the record, so that they also apply to
  the state of the two-thread model below.
\<close>

definition recordEvent :: "time_t \<Rightarrow> 'a monitor_state_scheme \<Rightarrow> 'a monitor_state_scheme" where
  "recordEvent now s =
     s\<lparr>out := out s @ [Wclog_raw now],
       timeSig := (if timeSig s = 0 then now else timeSig s),
       timeSigLast := now\<rparr>"

text \<open>
  One pass of the ticker loop after \<open>Sleep(5000)\<close> (lines 123-160), run without the other
  thread interfering; \<open>now\<close> is the value of \<open>time(nullptr)\<close> at line 126 and \<open>rc\<close> the
  value \<open>_wsystem\<close> returns if line 156 is reached. The two \<open>continue\<close> statements leave
  the state as it is.
\<close>

definition evaluateAndFire ::
  "time_t \<Rightarrow> int \<Rightarrow> 'a monitor_state_scheme \<Rightarrow> 'a monitor_state_scheme" where
  "evaluateAndFire now rc s =
     (if timeSig s = 0 then s
      else if now - timeSig s <s 60 \<and> now - timeSigLast s <s 5 then s
      else s\<lparr>out := out s @ [Wclog_detected (timeSig s), Wsystem]
                          @ (if rc \<noteq> 0 then [Wcerr_nonzero (timeSig s)] else []),
             timeSig := 0,
             timeSigLast := 0\<rparr>)"

text \<open>Sequences of calls: the recorder loop on a list of clock readings, the ticker loop
  on a list of clock readings paired with the exit status the batch file would give.\<close>

definition recordEvents ::
  "time_t list \<Rightarrow> 'a monitor_state_scheme \<Rightarrow> 'a monitor_state_scheme" where
  "recordEvents ts s = foldl (\<lambda>s now. recordEvent now s) s ts"

definition evaluations ::
  "(time_t \<times> int) list \<Rightarrow> 'a monitor_state_scheme \<Rightarrow> 'a monitor_state_scheme" where
  "evaluations ps s = foldl (\<lambda>s (now, rc). evaluateAndFire now rc s) s ps"

text \<open>The spec's optional fields, read off the code's encoding: 0 is "unset".\<close>

definition burstStart :: "'a monitor_state_scheme \<Rightarrow> time_t option" where
  "burstStart s = (if timeSig s = 0 then None else Some (timeSig s))"

definition lastEvent :: "'a monitor_state_scheme \<Rightarrow> time_t option" where
  "lastEvent s = (if timeSigLast s = 0 then None else Some (timeSigLast s))"

text \<open>How often the batch file has been run so far.\<close>

definition invocations :: "'a monitor_state_scheme \<Rightarrow> nat" where
  "invocations s = length (filter (\<lambda>e. e = Wsystem) (out s))"

text \<open>The two invariants the spec states for the pair of fields: both unset or both set,
  and then in signed order.\<close>

definition burst_invariant :: "'a monitor_state_scheme \<Rightarrow> bool" where
  "burst_invariant s =
     (case (burstStart s, lastEvent s) of
        (None, None) \<Rightarrow> True
      | (Some a, Some b) \<Rightarrow> a \<le>s b
      | _ \<Rightarrow> False)"

text \<open>A pending burst used as a concrete input below: first notification at second 100,
  latest at second 104.\<close>

definition burst_100_104 :: monitor_state where
  "burst_100_104 = \<lparr>done_flag = False, timeSig = 100, timeSigLast = 104, out = []\<rparr>"

section \<open>The two threads of \<open>monitor\<close>, statement by statement\<close>

text \<open>
  The ticker thread (the lambda of lines 117-162) and the thread that called \<open>monitor\<close>
  (the recorder loop of lines 164-187, then lines 189-190) run interleaved. Each thread
  has a program counter named after the source line it is about to execute, and one
  step executes that line. \<open>muxSig\<close> is the mutex: \<open>None\<close> when free, otherwise its
  owner; a \<open>lock_guard\<close> is taken at its declaration and released at the end of its
  scope. \<open>clock\<close> is what \<open>time(nullptr)\<close> returns, in seconds; a step of a thread takes
  no time, and time passes by the step \<open>Tick\<close>. How long \<open>Sleep\<close>,
  \<open>WaitForSingleObject\<close> and the batch file take is up to the schedule. Reads and
  writes of the shared variables take effect in the order of the schedule, one source
  line at a time.
\<close>

datatype thread = Ticker | Recorder

datatype tpc =
    T119   \<comment> \<open>\<open>while (!done)\<close>\<close>
  | T121   \<comment> \<open>inside \<open>::Sleep(5000)\<close>\<close>
  | T123   \<comment> \<open>\<open>if (!timeSig) continue;\<close>\<close>
  | T126   \<comment> \<open>\<open>const time_t now = time(nullptr);\<close>\<close>
  | T128   \<comment> \<open>\<open>if (now - timeSig < 60)\<close>\<close>
  | T130   \<comment> \<open>\<open>if (now - timeSigLast < 5) continue;\<close>\<close>
  | T141   \<comment> \<open>\<open>lock_guard<mutex> lock(muxSig);\<close>\<close>
  | T143   \<comment> \<open>\<open>_wctime64_s(dateBuf, &timeSig);\<close>\<close>
  | T154   \<comment> \<open>\<open>wclog << ... "Detected a modification."\<close>\<close>
  | T156   \<comment> \<open>the call of \<open>_wsystem\<close>\<close>
  | T156w  \<comment> \<open>inside \<open>_wsystem\<close>: the batch file is running\<close>
  | T157   \<comment> \<open>\<open>wcerr << ... "Non-zero error code was returned by "\<close>\<close>
  | T159   \<comment> \<open>\<open>timeSig = 0;\<close>\<close>
  | T160   \<comment> \<open>\<open>timeSigLast = 0;\<close>\<close>
  | T161   \<comment> \<open>end of the loop body: \<open>lock\<close> goes out of scope\<close>
  | Tend   \<comment> \<open>the lambda has returned\<close>

datatype rpc =
    R166   \<comment> \<open>inside \<open>WaitForSingleObject(h, INFINITE)\<close>\<close>
  | R167   \<comment> \<open>\<open>lock_guard<mutex> lock(muxSig);\<close>\<close>
  | R168   \<comment> \<open>\<open>time_t now = time(nullptr);\<close>\<close>
  | R182   \<comment> \<open>\<open>wclog << ... "Detected a modification. (raw)"\<close>\<close>
  | R183   \<comment> \<open>\<open>if (!timeSig) timeSig = now;\<close>\<close>
  | R185   \<comment> \<open>\<open>timeSigLast = now;\<close>\<close>
  | R186   \<comment> \<open>end of the loop body: \<open>lock\<close> goes out of scope\<close>
  | R187   \<comment> \<open>\<open>while (FindNextChangeNotification(h))\<close>\<close>
  | R189   \<comment> \<open>\<open>done = true;\<close>\<close>
  | R190   \<comment> \<open>\<open>thd.join();\<close>\<close>
  | Rend   \<comment> \<open>\<open>monitor\<close> has returned\<close>

text \<open>
  The last two fields are auxiliary: no step reads them. They remember, for the
  notification the recorder is handling, what the clock showed when
  \<open>WaitForSingleObject\<close> returned and whether the ticker held the lock at that moment.
\<close>

record threads_state = monitor_state +
  muxSig :: "thread option"
  clock :: time_t
  tpc :: tpc
  t_now :: time_t      \<comment> \<open>the ticker's \<open>now\<close> (line 126)\<close>
  t_date :: time_t     \<comment> \<open>the timestamp the ticker's \<open>dateBuf\<close> was made from (line 143)\<close>
  rpc :: rpc
  r_now :: time_t      \<comment> \<open>the recorder's \<open>now\<close> (line 168)\<close>
  arrival :: time_t
  arrived_in_fire :: bool

definition threads_init :: "time_t \<Rightarrow> threads_state" where
  "threads_init c =
     \<lparr>done_flag = False, timeSig = 0, timeSigLast = 0, out = [],
      muxSig = None, clock = c, tpc = T119, t_now = 0, t_date = 0,
      rpc = R166, r_now = 0, arrival = 0, arrived_in_fire = False\<rparr>"

text \<open>One statement of the ticker thread; \<open>None\<close> when the thread cannot move (the mutex
  is taken, the batch file has not returned, the thread has ended).\<close>

definition ticker_step :: "threads_state \<Rightarrow> threads_state option" where
  "ticker_step s =
     (case tpc s of
        T119 \<Rightarrow> Some (s\<lparr>tpc := (if done_flag s then Tend else T121)\<rparr>)
      | T121 \<Rightarrow> Some (s\<lparr>tpc := T123\<rparr>)
      | T123 \<Rightarrow> Some (s\<lparr>tpc := (if timeSig s = 0 then T119 else T126)\<rparr>)
      | T126 \<Rightarrow> Some (s\<lparr>t_now := clock s, tpc := T128\<rparr>)
      | T128 \<Rightarrow> Some (s\<lparr>tpc := (if t_now s - timeSig s <s 60 then T130 else T141)\<rparr>)
      | T130 \<Rightarrow> Some (s\<lparr>tpc := (if t_now s - timeSigLast s <s 5 then T119 else T141)\<rparr>)
      | T141 \<Rightarrow> (if muxSig s = None then Some (s\<lparr>muxSig := Some Ticker, tpc := T143\<rparr>)
                else None)
      | T143 \<Rightarrow> Some (s\<lparr>t_date := timeSig s, tpc := T154\<rparr>)
      | T154 \<Rightarrow> Some (s\<lparr>out := out s @ [Wclog_detected (t_date s)], tpc := T156\<rparr>)
      | T156 \<Rightarrow> Some (s\<lparr>out := out s @ [Wsystem], tpc := T156w\<rparr>)
      | T156w \<Rightarrow> None
      | T157 \<Rightarrow> Some (s\<lparr>out := out s @ [Wcerr_nonzero (t_date s)], tpc := T159\<rparr>)
      | T159 \<Rightarrow> Some (s\<lparr>timeSig := 0, tpc := T160\<rparr>)
      | T160 \<Rightarrow> Some (s\<lparr>timeSigLast := 0, tpc := T161\<rparr>)
      | T161 \<Rightarrow> Some (s\<lparr>muxSig := None, tpc := T119\<rparr>)
      | Tend \<Rightarrow> None)"

text \<open>\<open>_wsystem\<close> returns \<open>rc\<close> (line 156): the warning of line 157 is written only when
  \<open>rc\<close> is not 0.\<close>

definition system_returns :: "int \<Rightarrow> threads_state \<Rightarrow> threads_state option" where
  "system_returns rc s =
     (if tpc s = T156w then Some (s\<lparr>tpc := (if rc \<noteq> 0 then T157 else T159)\<rparr>) else None)"

text \<open>One statement of the thread that runs the recorder loop.\<close>

definition recorder_step :: "threads_state \<Rightarrow> threads_state option" where
  "recorder_step s =
     (case rpc s of
        R166 \<Rightarrow> None
      | R167 \<Rightarrow> (if muxSig s = None then Some (s\<lparr>muxSig := Some Recorder, rpc := R168\<rparr>)
                else None)
      | R168 \<Rightarrow> Some (s\<lparr>r_now := clock s, rpc := R182\<rparr>)
      | R182 \<Rightarrow> Some (s\<lparr>out := out s @ [Wclog_raw (r_now s)], rpc := R183\<rparr>)
      | R183 \<Rightarrow> Some (s\<lparr>timeSig := (if timeSig s = 0 then r_now s else timeSig s),
                        rpc := R185\<rparr>)
      | R185 \<Rightarrow> Some (s\<lparr>timeSigLast := r_now s, rpc := R186\<rparr>)
      | R186 \<Rightarrow> Some (s\<lparr>muxSig := None, rpc := R187\<rparr>)
      | R187 \<Rightarrow> None
      | R189 \<Rightarrow> Some (s\<lparr>done_flag := True, rpc := R190\<rparr>)
      | R190 \<Rightarrow> (if tpc s = Tend then Some (s\<lparr>rpc := Rend\<rparr>) else None)
      | Rend \<Rightarrow> None)"

text \<open>\<open>WaitForSingleObject\<close> returns (line 166). The code ignores its result, so a
  notification and a failed wait are the same step.\<close>

definition wait_returns :: "threads_state \<Rightarrow> threads_state option" where
  "wait_returns s =
     (if rpc s = R166
      then Some (s\<lparr>arrival := clock s, arrived_in_fire := (muxSig s = Some Ticker),
                   rpc := R167\<rparr>)
      else None)"

text \<open>\<open>FindNextChangeNotification\<close> returns \<open>b\<close> (line 187): the loop goes on when it is
  nonzero and is left when it is zero.\<close>

definition find_next :: "bool \<Rightarrow> threads_state \<Rightarrow> threads_state option" where
  "find_next b s =
     (if rpc s = R187 then Some (s\<lparr>rpc := (if b then R166 else R189)\<rparr>) else None)"

text \<open>What can happen next: a second passes, a thread executes its statement, or one of
  the three calls into the system returns.\<close>

datatype label =
    Tick | TickerStep | SystemReturns int | RecorderStep | WaitReturns | FindNext bool

fun step :: "label \<Rightarrow> threads_state \<Rightarrow> threads_state option" where
  "step Tick s = Some (s\<lparr>clock := clock s + 1\<rparr>)"
| "step TickerStep s = ticker_step s"
| "step (SystemReturns rc) s = system_returns rc s"
| "step RecorderStep s = recorder_step s"
| "step WaitReturns s = wait_returns s"
| "step (FindNext b) s = find_next b s"

fun exec :: "label list \<Rightarrow> threads_state \<Rightarrow> threads_state option" where
  "exec [] s = Some s"
| "exec (l # ls) s = (case step l s of None \<Rightarrow> None | Some s' \<Rightarrow> exec ls s')"

subsection \<open>Critical sections and invariants of the interleaving\<close>

text \<open>The statements each thread executes while its \<open>lock_guard\<close> is alive (lines
  142-161 and 168-186).\<close>

fun in_fire :: "tpc \<Rightarrow> bool" where
  "in_fire T143 = True"
| "in_fire T154 = True"
| "in_fire T156 = True"
| "in_fire T156w = True"
| "in_fire T157 = True"
| "in_fire T159 = True"
| "in_fire T160 = True"
| "in_fire T161 = True"
| "in_fire _ = False"

fun in_record :: "rpc \<Rightarrow> bool" where
  "in_record R168 = True"
| "in_record R182 = True"
| "in_record R183 = True"
| "in_record R185 = True"
| "in_record R186 = True"
| "in_record _ = False"

text \<open>The statements with which the ticker decides whether to fire: its reads of
  \<open>timeSig\<close> and \<open>timeSigLast\<close> (lines 123-130).\<close>

fun evaluating :: "tpc \<Rightarrow> bool" where
  "evaluating T123 = True"
| "evaluating T126 = True"
| "evaluating T128 = True"
| "evaluating T130 = True"
| "evaluating _ = False"

text \<open>A thread owns the mutex exactly while it is inside its critical section.\<close>

definition lock_discipline :: "threads_state \<Rightarrow> bool" where
  "lock_discipline s =
     ((muxSig s = Some Ticker) = in_fire (tpc s) \<and>
      (muxSig s = Some Recorder) = in_record (rpc s))"

text \<open>What the ticker has already reset when it stands after line 159 and after line 160.\<close>

definition fire_resets :: "threads_state \<Rightarrow> bool" where
  "fire_resets s =
     ((tpc s = T160 \<longrightarrow> timeSig s = 0) \<and>
      (tpc s = T161 \<longrightarrow> timeSig s = 0 \<and> timeSigLast s = 0))"

text \<open>The course of a notification that arrived while the ticker held the mutex: it waits
  at line 167 until the ticker has reset both fields, and then writes its own reading
  of the clock into both.\<close>

definition fresh_burst :: "threads_state \<Rightarrow> bool" where
  "fresh_burst s =
     (arrived_in_fire s \<longrightarrow>
       (case rpc s of
          R167 \<Rightarrow> muxSig s = Some Ticker \<or> (timeSig s = 0 \<and> timeSigLast s = 0)
        | R168 \<Rightarrow> timeSig s = 0 \<and> timeSigLast s = 0
        | R182 \<Rightarrow> timeSig s = 0 \<and> timeSigLast s = 0
        | R183 \<Rightarrow> timeSig s = 0 \<and> timeSigLast s = 0
        | R185 \<Rightarrow> timeSig s = r_now s \<and> timeSigLast s = 0
        | R186 \<Rightarrow> timeSig s = r_now s \<and> timeSigLast s = r_now s
        | _ \<Rightarrow> True))"

text \<open>The order of shutdown: \<open>done\<close> is set only after the recorder loop has been left,
  the ticker ends only after \<open>done\<close> is set, and \<open>monitor\<close> returns only after the
  ticker has ended.\<close>

definition shutdown_order :: "threads_state \<Rightarrow> bool" where
  "shutdown_order s =
     ((tpc s = Tend \<longrightarrow> done_flag s) \<and>
      (done_flag s \<longrightarrow> rpc s = R190 \<or> rpc s = Rend) \<and>
      (rpc s = Rend \<longrightarrow> tpc s = Tend))"

definition threads_inv :: "threads_state \<Rightarrow> bool" where
  "threads_inv s = (lock_discipline s \<and> fire_resets s \<and> fresh_burst s \<and> shutdown_order s)"

subsection \<open>Concrete schedules\<close>

text \<open>
  All schedules start from \<open>threads_init 995\<close>. \<open>first_event\<close>: the ticker goes to sleep,
  five seconds pass, a notification arrives at second 1000 and is recorded.
  \<open>quiet_fire\<close>: the ticker wakes at second 1000 and goes on waiting (the burst is 0
  seconds idle), sleeps until second 1005, finds the burst 5 seconds idle, takes the
  mutex and calls the batch file. \<open>arrival_in_action\<close>: two seconds into the batch file
  a notification arrives. \<open>action_returns\<close>: the batch file returns 0 eight seconds
  later, the ticker resets the fields and releases the mutex.
  \<open>blocked_then_recorded\<close>: after that the recorder takes the mutex and records the
  notification.
\<close>

definition first_event :: "label list" where
  "first_event =
     [TickerStep, Tick, Tick, Tick, Tick, Tick,
      WaitReturns, RecorderStep, RecorderStep, RecorderStep, RecorderStep, RecorderStep,
      RecorderStep, FindNext True]"

definition quiet_fire :: "label list" where
  "quiet_fire =
     [TickerStep, TickerStep, TickerStep, TickerStep, TickerStep, TickerStep,
      Tick, Tick, Tick, Tick, Tick,
      TickerStep, TickerStep, TickerStep, TickerStep, TickerStep,
      TickerStep, TickerStep, TickerStep, TickerStep]"

definition arrival_in_action :: "label list" where
  "arrival_in_action = [Tick, Tick, WaitReturns]"




text \<open>
  \<open>torn_read\<close>: the ticker's sleep ends in the second in which the first notification
  arrives; the recorder has executed line 184 and not yet line 185 when the ticker
  executes lines 123-128. \<open>torn_fire\<close> goes on: the ticker executes line 130 and waits
  for the mutex, the recorder finishes, the ticker fires.
\<close>

definition torn_read :: "label list" where
  "torn_read =
     [TickerStep, Tick, Tick, Tick, Tick, Tick,
      WaitReturns, RecorderStep, RecorderStep, RecorderStep, RecorderStep,
      TickerStep, TickerStep, TickerStep, TickerStep]"

definition torn_fire :: "label list" where
  "torn_fire =
     torn_read @ [TickerStep, RecorderStep, RecorderStep,
                  TickerStep, TickerStep, TickerStep, TickerStep]"




text \<open>The states these schedules lead to.\<close>

definition blocked_at_1007 :: threads_state where
  "blocked_at_1007 =
     \<lparr>done_flag = False, timeSig = 1000, timeSigLast = 1000,
      out = [Wclog_raw 1000, Wclog_detected 1000, Wsystem],
      muxSig = Some Ticker, clock = 1007, tpc = T156w, t_now = 1005, t_date = 1000,
      rpc = R167, r_now = 1000, arrival = 1007, arrived_in_fire = True\<rparr>"



definition torn_at_130 :: threads_state where
  "torn_at_130 =
     \<lparr>done_flag = False, timeSig = 1000, timeSigLast = 0, out = [Wclog_raw 1000],
      muxSig = Some Recorder, clock = 1000, tpc = T130, t_now = 1000, t_date = 0,
      rpc = R185, r_now = 1000, arrival = 1000, arrived_in_fire = False\<rparr>"

definition fired_at_1000 :: threads_state where
  "fired_at_1000 =
     \<lparr>done_flag = False, timeSig = 1000, timeSigLast = 1000,
      out = [Wclog_raw 1000, Wclog_detected 1000, Wsystem],
      muxSig = Some Ticker, clock = 1000, tpc = T156w, t_now = 1000, t_date = 1000,
      rpc = R187, r_now = 1000, arrival = 1000, arrived_in_fire = False\<rparr>"



section \<open>Lemmas: the two operations run one at a time\<close>

lemma evaluateAndFire_unset: "timeSig s = 0 \<Longrightarrow> evaluateAndFire now rc s = s"
  by (simp add: evaluateAndFire_def)

lemma evaluateAndFire_cases:
  "evaluateAndFire now rc s = s \<or>
   (timeSig (evaluateAndFire now rc s) = 0 \<and> timeSigLast (evaluateAndFire now rc s) = 0)"
  by (simp add: evaluateAndFire_def)

lemma evaluations_unset: "timeSig s = 0 \<Longrightarrow> evaluations ps s = s"
  unfolding evaluations_def
  by (induction ps) (simp_all add: evaluateAndFire_unset split: prod.splits)

lemma recordEvents_Nil: "recordEvents [] s = s"
  by (simp add: recordEvents_def)

lemma recordEvents_Cons: "recordEvents (t # ts) s = recordEvents ts (recordEvent t s)"
  by (simp add: recordEvents_def)

lemma recordEvents_keeps_start:
  "timeSig s \<noteq> 0 \<Longrightarrow> timeSig (recordEvents ts s) = timeSig s"
  unfolding recordEvents_def
  by (induction ts arbitrary: s) (simp_all add: recordEvent_def)

lemma recordEvents_last:
  "ts \<noteq> [] \<Longrightarrow> timeSigLast (recordEvents ts s) = last ts"
  unfolding recordEvents_def
  by (cases ts rule: rev_cases) (simp_all add: recordEvent_def)

lemma burst_invariant_iff:
  "burst_invariant s \<longleftrightarrow>
     (timeSig s = 0 \<longleftrightarrow> timeSigLast s = 0) \<and> (timeSig s \<noteq> 0 \<longrightarrow> timeSig s \<le>s timeSigLast s)"
  by (auto simp: burst_invariant_def burstStart_def lastEvent_def)

section \<open>Lemmas: the two threads interleaved\<close>

subsection \<open>The operations are the loop bodies run without interference\<close>

lemma recorder_pass_is_recordEvent:
  assumes "rpc s = R167" and "muxSig s = None"
  shows "exec [RecorderStep, RecorderStep, RecorderStep, RecorderStep, RecorderStep,
               RecorderStep] s
         = Some ((recordEvent (clock s) s)\<lparr>r_now := clock s, rpc := R187\<rparr>)"
  using assms by (simp add: recorder_step_def recordEvent_def)

lemma ticker_pass_is_evaluateAndFire:
  assumes "tpc s = T123" and "muxSig s = None"
  shows "\<exists>ls s'. set ls \<subseteq> {TickerStep, SystemReturns rc} \<and> exec ls s = Some s'
           \<and> tpc s' = T119 \<and> muxSig s' = None
           \<and> monitor_state.truncate s'
               = monitor_state.truncate (evaluateAndFire (clock s) rc s)"
proof -
  let ?T = TickerStep
  let ?fire = "[?T, ?T, ?T, SystemReturns rc] @ (if rc \<noteq> 0 then [?T] else []) @ [?T, ?T, ?T]"
  let ?ls = "if timeSig s = 0 then [?T]
             else if clock s - timeSig s <s 60
                  then (if clock s - timeSigLast s <s 5 then [?T, ?T, ?T, ?T]
                        else [?T, ?T, ?T, ?T, ?T] @ ?fire)
                  else [?T, ?T, ?T, ?T] @ ?fire"
  have "set ?ls \<subseteq> {TickerStep, SystemReturns rc}" by auto
  moreover have "\<exists>s'. exec ?ls s = Some s' \<and> tpc s' = T119 \<and> muxSig s' = None
           \<and> monitor_state.truncate s'
               = monitor_state.truncate (evaluateAndFire (clock s) rc s)"
    using assms
    by (simp add: ticker_step_def system_returns_def evaluateAndFire_def
          monitor_state.truncate_def)
  ultimately show ?thesis by blast
qed

subsection \<open>Invariants of every execution\<close>

lemma lock_discipline_ticker:
  "lock_discipline s \<Longrightarrow> ticker_step s = Some s' \<Longrightarrow> lock_discipline s'"
  by (cases "tpc s") (auto simp: lock_discipline_def ticker_step_def split: if_splits)

lemma lock_discipline_recorder:
  "lock_discipline s \<Longrightarrow> recorder_step s = Some s' \<Longrightarrow> lock_discipline s'"
  by (cases "rpc s") (auto simp: lock_discipline_def recorder_step_def split: if_splits)

lemma lock_discipline_step:
  "lock_discipline s \<Longrightarrow> step l s = Some s' \<Longrightarrow> lock_discipline s'"
proof (cases l)
  case TickerStep
  then show "lock_discipline s \<Longrightarrow> step l s = Some s' \<Longrightarrow> lock_discipline s'"
    by (simp add: lock_discipline_ticker)
next
  case RecorderStep
  then show "lock_discipline s \<Longrightarrow> step l s = Some s' \<Longrightarrow> lock_discipline s'"
    by (simp add: lock_discipline_recorder)
qed (auto simp: lock_discipline_def system_returns_def wait_returns_def find_next_def
          split: if_splits)

lemma fire_resets_ticker:
  "fire_resets s \<Longrightarrow> ticker_step s = Some s' \<Longrightarrow> fire_resets s'"
  by (cases "tpc s") (auto simp: fire_resets_def ticker_step_def split: if_splits)

lemma fire_resets_recorder:
  "lock_discipline s \<Longrightarrow> fire_resets s \<Longrightarrow> recorder_step s = Some s' \<Longrightarrow> fire_resets s'"
  by (cases "rpc s"; cases "tpc s")
     (auto simp: fire_resets_def lock_discipline_def recorder_step_def split: if_splits)

lemma fire_resets_step:
  "lock_discipline s \<Longrightarrow> fire_resets s \<Longrightarrow> step l s = Some s' \<Longrightarrow> fire_resets s'"
proof (cases l)
  case TickerStep
  then show "fire_resets s \<Longrightarrow> step l s = Some s' \<Longrightarrow> fire_resets s'"
    by (simp add: fire_resets_ticker)
next
  case RecorderStep
  then show "lock_discipline s \<Longrightarrow> fire_resets s \<Longrightarrow> step l s = Some s' \<Longrightarrow> fire_resets s'"
    by (simp add: fire_resets_recorder)
qed (auto simp: fire_resets_def system_returns_def wait_returns_def find_next_def
          split: if_splits)

lemma fresh_burst_ticker:
  "lock_discipline s \<Longrightarrow> fire_resets s \<Longrightarrow> fresh_burst s \<Longrightarrow> ticker_step s = Some s'
   \<Longrightarrow> fresh_burst s'"
  by (cases "tpc s"; cases "rpc s")
     (auto simp: fresh_burst_def fire_resets_def lock_discipline_def ticker_step_def
           split: if_splits)

lemma fresh_burst_recorder:
  "lock_discipline s \<Longrightarrow> fresh_burst s \<Longrightarrow> recorder_step s = Some s' \<Longrightarrow> fresh_burst s'"
  by (cases "rpc s")
     (auto simp: fresh_burst_def lock_discipline_def recorder_step_def split: if_splits)

lemma fresh_burst_step:
  "lock_discipline s \<Longrightarrow> fire_resets s \<Longrightarrow> fresh_burst s \<Longrightarrow> step l s = Some s'
   \<Longrightarrow> fresh_burst s'"
proof (cases l)
  case TickerStep
  then show "lock_discipline s \<Longrightarrow> fire_resets s \<Longrightarrow> fresh_burst s \<Longrightarrow> step l s = Some s'
   \<Longrightarrow> fresh_burst s'"
    by (simp add: fresh_burst_ticker)
next
  case RecorderStep
  then show "lock_discipline s \<Longrightarrow> fresh_burst s \<Longrightarrow> step l s = Some s' \<Longrightarrow> fresh_burst s'"
    by (simp add: fresh_burst_recorder)
next
  case WaitReturns
  then show "step l s = Some s' \<Longrightarrow> fresh_burst s'"
    by (auto simp: fresh_burst_def wait_returns_def split: if_splits)
qed (auto simp: fresh_burst_def system_returns_def find_next_def
          split: if_splits rpc.splits)

lemma shutdown_order_step:
  "shutdown_order s \<Longrightarrow> step l s = Some s' \<Longrightarrow> shutdown_order s'"
proof (cases l)
  case TickerStep
  then show "shutdown_order s \<Longrightarrow> step l s = Some s' \<Longrightarrow> shutdown_order s'"
    by (cases "tpc s") (auto simp: shutdown_order_def ticker_step_def split: if_splits)
next
  case RecorderStep
  then show "shutdown_order s \<Longrightarrow> step l s = Some s' \<Longrightarrow> shutdown_order s'"
    by (cases "rpc s") (auto simp: shutdown_order_def recorder_step_def split: if_splits)
qed (auto simp: shutdown_order_def system_returns_def wait_returns_def find_next_def
          split: if_splits)

lemma threads_inv_init: "threads_inv (threads_init c)"
  by (simp add: threads_inv_def lock_discipline_def fire_resets_def fresh_burst_def
        shutdown_order_def threads_init_def)

lemma threads_inv_step: "threads_inv s \<Longrightarrow> step l s = Some s' \<Longrightarrow> threads_inv s'"
  unfolding threads_inv_def
  using lock_discipline_step fire_resets_step fresh_burst_step shutdown_order_step
  by blast

lemma threads_inv_exec: "threads_inv s \<Longrightarrow> exec ls s = Some s' \<Longrightarrow> threads_inv s'"
proof (induction ls arbitrary: s)
  case Nil
  then show ?case by simp
next
  case (Cons l ls)
  then show ?case
    by (cases "step l s") (auto dest: threads_inv_step)
qed

lemma threads_inv_reachable: "exec ls (threads_init c) = Some s \<Longrightarrow> threads_inv s"
  using threads_inv_exec [OF threads_inv_init] .

subsection \<open>A blocked recorder can always go on\<close>





lemmas run_simps =
  threads_init_def ticker_step_def recorder_step_def wait_returns_def find_next_def
  system_returns_def word_sless_alt

section \<open>The claims of the specification\<close>

text \<open>
  C1. When a burst is pending (\<open>timeSig\<close> is not 0), a pass of the ticker with clock
  reading \<open>now\<close> runs the batch file if and only if the age \<open>now - timeSig\<close> is at least
  60 or the idle time \<open>now - timeSigLast\<close> is at least 5; when the age is below 60 and
  the idle time below 5 the pass changes nothing, so the batch file is not run.
\<close>

theorem evaluateAndFire_fires_iff:
  assumes "timeSig s \<noteq> 0"
  shows "(invocations (evaluateAndFire now rc s) = Suc (invocations s)
           \<longleftrightarrow> 60 \<le>s now - timeSig s \<or> 5 \<le>s now - timeSigLast s)
       \<and> (now - timeSig s <s 60 \<and> now - timeSigLast s <s 5
           \<longrightarrow> evaluateAndFire now rc s = s)"
  using assms by (auto simp: evaluateAndFire_def invocations_def signed.not_less)

theorem evaluateAndFire_fires_iff_witness:
  "timeSig burst_100_104 \<noteq> 0
   \<and> invocations (evaluateAndFire 110 0 burst_100_104) = Suc (invocations burst_100_104)
   \<and> (5 :: time_t) \<le>s 110 - timeSigLast burst_100_104
   \<and> 108 - timeSig burst_100_104 <s 60 \<and> 108 - timeSigLast burst_100_104 <s 5
   \<and> evaluateAndFire 108 0 burst_100_104 = burst_100_104"
  using evaluateAndFire_fires_iff [of burst_100_104 110 0]
        evaluateAndFire_fires_iff [of burst_100_104 108 0]
  by (simp add: burst_100_104_def word_sle_eq word_sless_alt)

text \<open>
  C2, as the spec states it, fails when the first timestamp is 0: the first call leaves
  \<open>timeSig\<close> at 0, which is the encoding of "unset", and the second call's timestamp
  becomes the burst start.
\<close>

theorem recordEvents_zero_first_counterexample:
  "sorted_wrt (\<le>s) [0, 5 :: time_t] \<and> timeSig monitor_init = 0
   \<and> timeSig (recordEvents [0, 5] monitor_init) \<noteq> hd [0, 5]
   \<and> burstStart (recordEvents [0, 5] monitor_init) \<noteq> Some (hd [0, 5])"
  by (simp add: recordEvents_def recordEvent_def monitor_init_def burstStart_def word_sle_eq)

text \<open>
  C2 (amended). For every nonempty sequence of \<open>recordEvent\<close> calls with nondecreasing
  timestamps whose first timestamp is not 0, made in a state with no pending burst,
  \<open>timeSig\<close> ends as the first timestamp and \<open>timeSigLast\<close> as the last one. Each single
  call sets \<open>timeSig\<close> to its timestamp only if \<open>timeSig\<close> is 0, and always sets
  \<open>timeSigLast\<close> to its timestamp.
\<close>

theorem recordEvents_first_last:
  assumes "ts \<noteq> []" and "sorted_wrt (\<le>s) ts" and "timeSig s = 0" and "hd ts \<noteq> 0"
  shows "timeSig (recordEvents ts s) = hd ts
       \<and> timeSigLast (recordEvents ts s) = last ts
       \<and> burstStart (recordEvents ts s) = Some (hd ts)
       \<and> timeSig (recordEvent now s') = (if timeSig s' = 0 then now else timeSig s')
       \<and> timeSigLast (recordEvent now s') = now"
proof (cases ts)
  case Nil
  with assms show ?thesis by simp
next
  case (Cons t rest)
  have t: "timeSig (recordEvent t s) = t" "t \<noteq> 0"
    using assms Cons by (simp_all add: recordEvent_def)
  have "timeSig (recordEvents ts s) = t"
    using recordEvents_keeps_start [of "recordEvent t s" rest] t Cons
    by (simp add: recordEvents_Cons)
  moreover have "timeSigLast (recordEvents ts s) = last ts"
    using assms(1) by (rule recordEvents_last)
  ultimately show ?thesis
    using Cons t by (simp add: burstStart_def recordEvent_def)
qed

theorem recordEvents_first_last_witness:
  "[100, 102, 102, 104 :: time_t] \<noteq> [] \<and> sorted_wrt (\<le>s) [100, 102, 102, 104 :: time_t]
   \<and> timeSig monitor_init = 0 \<and> hd [100, 102, 102, 104 :: time_t] \<noteq> 0
   \<and> timeSig (recordEvents [100, 102, 102, 104] monitor_init) = 100
   \<and> timeSigLast (recordEvents [100, 102, 102, 104] monitor_init) = 104"
  using recordEvents_first_last
          [where ts = "[100, 102, 102, 104]" and s = monitor_init and now = 0
             and s' = monitor_init]
  by (simp add: monitor_init_def word_sle_eq)

text \<open>
  C3, as the spec states it, fails for a \<open>recordEvent\<close> with timestamp 0 after a fire: no
  burst is pending afterwards.
\<close>

theorem fire_then_record_zero_counterexample:
  "invocations (evaluateAndFire 110 0 burst_100_104) = Suc (invocations burst_100_104)
   \<and> burstStart (recordEvent 0 (evaluateAndFire 110 0 burst_100_104)) = None
   \<and> burstStart (recordEvent 0 (evaluateAndFire 110 0 burst_100_104)) \<noteq> Some 0"
  by (simp add: evaluateAndFire_def invocations_def recordEvent_def burstStart_def
        burst_100_104_def word_sless_alt)

text \<open>
  C3 (amended). Whenever a pass of the ticker runs the batch file, it leaves both
  \<open>timeSig\<close> and \<open>timeSigLast\<close> at 0 (unset), and a following \<open>recordEvent\<close> whose
  timestamp is not 0 starts a new burst at that timestamp. In every execution of the
  two threads the ticker owns the mutex from the call of the batch file to the end of
  the loop body, where both fields are 0: the two resets happen in the critical section
  of the fire.
\<close>

theorem fire_then_record_nonzero:
  assumes "invocations (evaluateAndFire now rc s) \<noteq> invocations s"
  shows "timeSig (evaluateAndFire now rc s) = 0
       \<and> timeSigLast (evaluateAndFire now rc s) = 0
       \<and> burstStart (evaluateAndFire now rc s) = None
       \<and> lastEvent (evaluateAndFire now rc s) = None
       \<and> (t \<noteq> 0 \<longrightarrow> burstStart (recordEvent t (evaluateAndFire now rc s)) = Some t
                   \<and> lastEvent (recordEvent t (evaluateAndFire now rc s)) = Some t)
       \<and> (exec ls (threads_init c) = Some u \<longrightarrow>
            (in_fire (tpc u) \<longrightarrow> muxSig u = Some Ticker)
            \<and> (tpc u = T161 \<longrightarrow> timeSig u = 0 \<and> timeSigLast u = 0))"
proof -
  from assms have "evaluateAndFire now rc s \<noteq> s" by auto
  with evaluateAndFire_cases [of now rc s]
  have "timeSig (evaluateAndFire now rc s) = 0" "timeSigLast (evaluateAndFire now rc s) = 0"
    by auto
  moreover have "(in_fire (tpc u) \<longrightarrow> muxSig u = Some Ticker)
            \<and> (tpc u = T161 \<longrightarrow> timeSig u = 0 \<and> timeSigLast u = 0)"
    if "exec ls (threads_init c) = Some u"
    using threads_inv_reachable [OF that]
    by (simp add: threads_inv_def lock_discipline_def fire_resets_def)
  ultimately show ?thesis by (simp add: burstStart_def lastEvent_def recordEvent_def)
qed

theorem fire_then_record_nonzero_witness:
  "invocations (evaluateAndFire 110 0 burst_100_104) \<noteq> invocations burst_100_104
   \<and> (112 :: time_t) \<noteq> 0
   \<and> timeSig (evaluateAndFire 110 0 burst_100_104) = 0
   \<and> burstStart (recordEvent 112 (evaluateAndFire 110 0 burst_100_104)) = Some 112
   \<and> exec (first_event @ quiet_fire @ arrival_in_action) (threads_init 995)
       = Some blocked_at_1007
   \<and> in_fire (tpc blocked_at_1007) \<and> muxSig blocked_at_1007 = Some Ticker"
proof -
  have a: "exec (first_event @ quiet_fire @ arrival_in_action) (threads_init 995)
             = Some blocked_at_1007"
    by (simp add: first_event_def quiet_fire_def arrival_in_action_def blocked_at_1007_def
          run_simps)
  show ?thesis
    using a fire_then_record_nonzero
              [where now = 110 and rc = 0 and s = burst_100_104 and t = 112
                 and ls = "first_event @ quiet_fire @ arrival_in_action" and c = 995
                 and u = blocked_at_1007]
    by (simp add: evaluateAndFire_def invocations_def burst_100_104_def word_sless_alt)
       (simp add: blocked_at_1007_def)
qed

text \<open>
  C4, as the spec states it, fails for nondecreasing timestamps that reach 0 while a
  burst is pending: after \<open>recordEvent\<close> at -1 (what \<open>time\<close> returns when it fails) and
  then at 0, \<open>timeSig\<close> is set and \<open>timeSigLast\<close> is 0, the encoding of "unset".
\<close>

theorem burst_invariant_record_zero_counterexample:
  "sorted_wrt (\<le>s) [- 1, 0 :: time_t]
   \<and> burst_invariant monitor_init
   \<and> burst_invariant (recordEvent (- 1) monitor_init)
   \<and> timeSigLast (recordEvent (- 1) monitor_init) \<le>s 0
   \<and> \<not> burst_invariant (recordEvent 0 (recordEvent (- 1) monitor_init))
   \<and> burstStart (recordEvents [- 1, 0] monitor_init) = Some (- 1)
   \<and> lastEvent (recordEvents [- 1, 0] monitor_init) = None"
  by (simp add: burst_invariant_def burstStart_def lastEvent_def recordEvent_def
        recordEvents_def monitor_init_def word_sle_eq)

text \<open>
  C4 (amended). A pass of the ticker, whether it fires or not, preserves both
  invariants; \<open>recordEvent\<close> preserves them when, if a burst is pending, its timestamp
  is not below the previous one and is not 0.
\<close>

theorem burst_invariant_preserved:
  assumes "burst_invariant s"
  shows "((timeSig s \<noteq> 0 \<longrightarrow> timeSigLast s \<le>s t \<and> t \<noteq> 0)
            \<longrightarrow> burst_invariant (recordEvent t s))
       \<and> burst_invariant (evaluateAndFire now rc s)"
proof -
  have "burst_invariant (evaluateAndFire now rc s)"
    using assms evaluateAndFire_cases [of now rc s] by (auto simp: burst_invariant_iff)
  moreover have "burst_invariant (recordEvent t s)"
    if "timeSig s \<noteq> 0 \<longrightarrow> timeSigLast s \<le>s t \<and> t \<noteq> 0"
  proof (cases "timeSig s = 0")
    case True
    then show ?thesis by (simp add: burst_invariant_iff recordEvent_def)
  next
    case False
    with assms that have "timeSig s \<le>s timeSigLast s" "timeSigLast s \<le>s t" "t \<noteq> 0"
      by (auto simp: burst_invariant_iff)
    then have "timeSig s \<le>s t" by (rule_tac signed.order_trans)
    with False \<open>t \<noteq> 0\<close> show ?thesis by (simp add: burst_invariant_iff recordEvent_def)
  qed
  ultimately show ?thesis by blast
qed

theorem burst_invariant_preserved_witness:
  "burst_invariant burst_100_104
   \<and> timeSig burst_100_104 \<noteq> 0 \<and> timeSigLast burst_100_104 \<le>s 104 \<and> (104 :: time_t) \<noteq> 0
   \<and> burst_invariant (recordEvent 104 burst_100_104)
   \<and> burst_invariant (evaluateAndFire 110 0 burst_100_104)"
proof -
  have h: "burst_invariant burst_100_104"
    by (simp add: burst_invariant_def burstStart_def lastEvent_def burst_100_104_def
          word_sle_eq)
  show ?thesis
    using h burst_invariant_preserved [OF h, of 104 110 0]
    by (simp add: burst_100_104_def word_sle_eq)
qed

text \<open>
  C5. While no burst is pending (\<open>timeSig\<close> is 0), a pass of the ticker changes nothing,
  and neither does any number of passes: the state, and with it the trace of batch
  file runs, stays as it was.
\<close>

theorem evaluateAndFire_idle_noop:
  assumes "timeSig s = 0"
  shows "evaluateAndFire now rc s = s
       \<and> evaluations ps s = s
       \<and> invocations (evaluations ps s) = invocations s"
  using assms by (simp add: evaluateAndFire_unset evaluations_unset)

theorem evaluateAndFire_idle_noop_witness:
  "timeSig monitor_init = 0
   \<and> evaluateAndFire 5 1 monitor_init = monitor_init
   \<and> evaluations [(5, 0), (10, 1), (70, 0)] monitor_init = monitor_init"
  using evaluateAndFire_idle_noop [of monitor_init 5 1 "[(5, 0), (10, 1), (70, 0)]"]
  by (simp add: monitor_init_def)

text \<open>
  C6. When the ticker fires and the batch file returns a nonzero status, the pass writes
  the warning after the one run of the batch file, leaves \<open>done\<close> as it was, resets both
  fields to 0 exactly as a pass with status 0 does, and then no later pass does
  anything (there is no retry) until a new burst is recorded. In the ticker thread the
  nonzero return of the batch file is followed by the warning, the two resets, the
  release of the mutex and the loop test, which starts the next sleep unless \<open>done\<close> has
  been set by the other thread.
\<close>

theorem action_failure_resets:
  assumes "rc \<noteq> 0" and "timeSig s \<noteq> 0"
    and "60 \<le>s now - timeSig s \<or> 5 \<le>s now - timeSigLast s"
  shows "out (evaluateAndFire now rc s)
           = out s @ [Wclog_detected (timeSig s), Wsystem, Wcerr_nonzero (timeSig s)]
       \<and> invocations (evaluateAndFire now rc s) = Suc (invocations s)
       \<and> done_flag (evaluateAndFire now rc s) = done_flag s
       \<and> timeSig (evaluateAndFire now rc s) = 0
       \<and> timeSigLast (evaluateAndFire now rc s) = 0
       \<and> timeSig (evaluateAndFire now rc s) = timeSig (evaluateAndFire now 0 s)
       \<and> timeSigLast (evaluateAndFire now rc s) = timeSigLast (evaluateAndFire now 0 s)
       \<and> evaluations ps (evaluateAndFire now rc s) = evaluateAndFire now rc s
       \<and> (tpc u = T156w \<longrightarrow>
            exec [SystemReturns rc, TickerStep, TickerStep, TickerStep, TickerStep,
                  TickerStep] u
            = Some (u\<lparr>out := out u @ [Wcerr_nonzero (t_date u)], timeSig := 0,
                       timeSigLast := 0, muxSig := None,
                       tpc := (if done_flag u then Tend else T121)\<rparr>))"
proof -
  have fire: "\<not> (now - timeSig s <s 60 \<and> now - timeSigLast s <s 5)"
    using assms(3) by (auto simp: signed.not_less)
  have z: "timeSig (evaluateAndFire now rc s) = 0"
    using assms fire by (simp add: evaluateAndFire_def)
  have "exec [SystemReturns rc, TickerStep, TickerStep, TickerStep, TickerStep,
              TickerStep] u
        = Some (u\<lparr>out := out u @ [Wcerr_nonzero (t_date u)], timeSig := 0,
                   timeSigLast := 0, muxSig := None,
                   tpc := (if done_flag u then Tend else T121)\<rparr>)"
    if "tpc u = T156w"
    using that assms(1) by (simp add: system_returns_def ticker_step_def)
  then show ?thesis
    using assms fire evaluations_unset [OF z, of ps]
    by (simp add: evaluateAndFire_def invocations_def)
qed

theorem action_failure_resets_witness:
  "(1 :: int) \<noteq> 0
   \<and> timeSig burst_100_104 \<noteq> 0
   \<and> (5 :: time_t) \<le>s 110 - timeSigLast burst_100_104
   \<and> evaluateAndFire 110 1 burst_100_104
       = \<lparr>done_flag = False, timeSig = 0, timeSigLast = 0,
          out = [Wclog_detected 100, Wsystem, Wcerr_nonzero 100]\<rparr>
   \<and> evaluations [(115, 1), (120, 0)] (evaluateAndFire 110 1 burst_100_104)
       = evaluateAndFire 110 1 burst_100_104
   \<and> tpc blocked_at_1007 = T156w
   \<and> exec [SystemReturns 1, TickerStep, TickerStep, TickerStep, TickerStep, TickerStep]
        blocked_at_1007
       = Some (blocked_at_1007
                 \<lparr>out := [Wclog_raw 1000, Wclog_detected 1000, Wsystem, Wcerr_nonzero 1000],
                   timeSig := 0, timeSigLast := 0, muxSig := None, tpc := T121\<rparr>)"
  using action_failure_resets
          [where rc = 1 and s = burst_100_104 and now = 110 and ps = "[(115, 1), (120, 0)]"
             and u = blocked_at_1007]
  by (simp add: burst_100_104_def blocked_at_1007_def word_sle_eq)




text \<open>
  C8. The claim is that the ticker holds the mutex while it reads \<open>timeSig\<close> and
  \<open>timeSigLast\<close>. The code takes it only at line 141, after the reads of lines 123-130.
  In \<open>torn_read\<close> the ticker stands at line 130 while the recorder, which owns the mutex,
  has written \<open>timeSig\<close> and not yet \<open>timeSigLast\<close>: the ticker reads the half-written pair
  (1000, 0), computes an idle time of 1000 seconds and goes on to fire. In \<open>torn_fire\<close>
  the batch file is then started in the very second of the burst's first notification.
\<close>

theorem ticker_fires_on_torn_read:
  "exec torn_read (threads_init 995) = Some torn_at_130
   \<and> evaluating (tpc torn_at_130) \<and> muxSig torn_at_130 = Some Recorder
   \<and> timeSig torn_at_130 = 1000 \<and> timeSigLast torn_at_130 = 0
   \<and> step TickerStep torn_at_130 = Some (torn_at_130\<lparr>tpc := T141\<rparr>)
   \<and> exec torn_fire (threads_init 995) = Some fired_at_1000
   \<and> out fired_at_1000 = [Wclog_raw 1000, Wclog_detected 1000, Wsystem]
   \<and> clock fired_at_1000 = 1000"
  by (simp add: torn_fire_def torn_read_def torn_at_130_def fired_at_1000_def run_simps)



text \<open>
  C10. "No pending burst" is the value 0 of \<open>timeSig\<close>. A \<open>recordEvent\<close> whose timestamp is
  0, made while no burst is pending, leaves both fields at 0, so that no burst is
  pending afterwards, and every later pass of the ticker does as little as it would have
  done without the call.
\<close>

theorem recordEvent_zero_is_unset:
  assumes "timeSig s = 0"
  shows "timeSig (recordEvent 0 s) = 0
       \<and> timeSigLast (recordEvent 0 s) = 0
       \<and> burstStart (recordEvent 0 s) = None
       \<and> lastEvent (recordEvent 0 s) = None
       \<and> evaluations ps (recordEvent 0 s) = recordEvent 0 s
       \<and> invocations (evaluations ps (recordEvent 0 s)) = invocations (evaluations ps s)"
proof -
  have z: "timeSig (recordEvent 0 s) = 0"
    using assms by (simp add: recordEvent_def)
  have "invocations (recordEvent 0 s) = invocations s"
    by (simp add: recordEvent_def invocations_def)
  then show ?thesis
    using assms z evaluations_unset [OF z, of ps] evaluations_unset [OF assms, of ps]
    by (simp add: burstStart_def lastEvent_def) (simp add: recordEvent_def)
qed

theorem recordEvent_zero_is_unset_witness:
  "timeSig monitor_init = 0
   \<and> recordEvent 0 monitor_init
       = \<lparr>done_flag = False, timeSig = 0, timeSigLast = 0, out = [Wclog_raw 0]\<rparr>
   \<and> evaluations [(5, 0), (70, 0)] (recordEvent 0 monitor_init) = recordEvent 0 monitor_init"
  using recordEvent_zero_is_unset [of monitor_init "[(5, 0), (70, 0)]"]
  by (simp add: monitor_init_def recordEvent_def)

end
